theory Spec2Isabelle
  imports Main "HOL-Library.Sublist"
begin

section \<open>The access-list demo script (demo.ts) as a function of its environment\<close>

text \<open>
  The script is sequential plumbing around a client library: it resolves its
  configuration at module level, then an async function issues a fixed series of
  RPC calls and branches on their outcomes. Every call that leaves the script (a
  request to the provider, the derivation of an account from a mnemonic) is a field
  of the record \<open>world\<close>: a function from what the script passes to what comes back,
  either a rejection (\<open>Inl\<close>) or a value (\<open>Inr\<close>). A run returns the list of
  calls that were issued, in order, and the way the async function settled.
\<close>

subsection \<open>Values, errors and configuration\<close>

type_synonym address = string

text \<open>A JavaScript \<open>Error\<close>: its name and its message.\<close>

datatype js_error = JsError string string

text \<open>The \<open>--chain\<close> option: yargs restricts it to the keys of \<open>CHAINS_BY_NAME\<close>.\<close>

datatype chain_name = Base | Celo

text \<open>The fields of the library's chain objects \<open>base\<close> and \<open>celo\<close> that are used.\<close>

fun chain_id :: "chain_name \<Rightarrow> nat" where
  "chain_id Base = 8453"
| "chain_id Celo = 42220"

fun default_rpc_url :: "chain_name \<Rightarrow> string" where
  "default_rpc_url Base = ''https://mainnet.base.org''"
| "default_rpc_url Celo = ''https://forno.celo.org''"

definition TOKEN_SEND_AMOUNT :: string where
  \<comment> \<open>\<open>TOKEN_SEND_AMOUNT.toString()\<close> of the number literal \<open>0.01\<close>\<close>
  "TOKEN_SEND_AMOUNT = ''0.01''"

text \<open>
  The table is keyed by the chain's id in the source; each chain of \<open>CHAINS_BY_NAME\<close>
  has its entry.
\<close>

fun TOKEN_ADDRESS_BY_CHAIN :: "chain_name \<Rightarrow> address" where
  "TOKEN_ADDRESS_BY_CHAIN Celo = ''0xceba9300f2b948710d2653dd7b07f33a8b32118c''"
| "TOKEN_ADDRESS_BY_CHAIN Base = ''0x833589fcd6edb6e08f4c7c32d4f71b54bda02913''"

fun RPC_ENV_VAR_BY_CHAIN :: "chain_name \<Rightarrow> string" where
  "RPC_ENV_VAR_BY_CHAIN Base = ''BASE_RPC_URL''"
| "RPC_ENV_VAR_BY_CHAIN Celo = ''CELO_RPC_URL''"

definition FALLBACK_ADDRESS :: address where
  "FALLBACK_ADDRESS = ''0xe30E59040385cfa09e5C61241C20f0673F314C98''"

text \<open>
  What the script reads from the command line and from the process environment.
  \<open>argv_chain\<close> already holds the default \<open>base\<close> when the option is absent.
\<close>

record config =
  argv_chain :: chain_name
  argv_rpc_url :: "string option"
  process_env :: "string \<Rightarrow> string option"

text \<open>JavaScript truthiness of a value of type \<open>string | undefined\<close>.\<close>

fun truthy :: "string option \<Rightarrow> bool" where
  "truthy None = False"
| "truthy (Some s) = (s \<noteq> [])"

text \<open>A signing account, as \<open>mnemonicToAccount\<close> returns it.\<close>

datatype account = LocalAccount address

fun account_address :: "account \<Rightarrow> address" where
  "account_address (LocalAccount a) = a"

subsection \<open>Requests and responses\<close>

datatype abi_value = AbiAddress address | AbiUint int

text \<open>
  \<open>encodeFunctionData\<close> is the library's ABI encoder, a pure function of the function
  name and the argument values; its result is represented by what it encodes.
\<close>

datatype calldata = EncodedCall string "abi_value list"

definition encodeFunctionData :: "string \<Rightarrow> abi_value list \<Rightarrow> calldata" where
  "encodeFunctionData functionName args = EncodedCall functionName args"

text \<open>
  The parameters of \<open>simulateContract\<close> (the ABI is always \<open>erc20Abi\<close>). The
  \<open>request\<close> that a successful simulation returns carries the same fields.
\<close>

record contract_request =
  req_account :: address
  req_address :: address
  req_functionName :: string
  req_args :: "abi_value list"

text \<open>
  The parameters of \<open>createAccessList\<close>. The library takes an optional \<open>gas\<close>;
  \<open>al_gas\<close> is \<open>None\<close> when the object passed has no such key.
\<close>

record access_list_request =
  al_account :: address
  al_to :: address
  al_data :: calldata
  al_value :: int
  al_gas :: "int option"

record access_list_result =
  accessList :: "(address \<times> string list) list"
  gasUsed :: int

text \<open>The parameters of \<open>writeContract\<close>: the request, with the signing account.\<close>

record write_request =
  wr_account :: account
  wr_address :: address
  wr_functionName :: string
  wr_args :: "abi_value list"

datatype receipt_status = Success | Reverted

record receipt =
  transactionHash :: string
  status :: receipt_status
  receipt_gasUsed :: int
  blockNumber :: int

text \<open>The three reads that \<open>Promise.all\<close> runs concurrently.\<close>

datatype token_read = ReadSymbol | ReadDecimals | ReadBalanceOf

text \<open>
  The environment of a run. \<open>settle_time\<close> is the moment at which each of the three
  concurrent reads settles; everything else is a response mapping.
\<close>

record world =
  mnemonicToAccount :: "string \<Rightarrow> js_error + account"
  getBalance :: "address \<Rightarrow> js_error + int"
  readContract_symbol :: "address \<Rightarrow> js_error + string"
  readContract_decimals :: "address \<Rightarrow> js_error + nat"
  readContract_balanceOf :: "address \<Rightarrow> address \<Rightarrow> js_error + int"
  simulate_call :: "contract_request \<Rightarrow> js_error + bool"
  createAccessList :: "access_list_request \<Rightarrow> js_error + access_list_result"
  writeContract :: "write_request \<Rightarrow> js_error + string"
  waitForTransactionReceipt :: "string \<Rightarrow> js_error + receipt"
  settle_time :: "token_read \<Rightarrow> nat"

text \<open>The calls a run issues, with their parameters.\<close>

datatype event =
    EvGetBalance address
  | EvReadContract address string "abi_value list"
  | EvSimulateContract contract_request
  | EvCreateAccessList access_list_request
  | EvWriteContract write_request
  | EvWaitForTransactionReceipt string

datatype outcome = ReadOnlyCompleted | Completed receipt

subsection \<open>Library helpers: \<open>parseUnits\<close>, \<open>Promise.all\<close>, \<open>simulateContract\<close>\<close>

text \<open>
  The script calls these functions of its client library and of the language; the
  repository does not contain them. They are written here after their published
  behaviour, as far as the script's calls need it.
\<close>

definition is_digit :: "char \<Rightarrow> bool" where
  "is_digit c = (c \<in> set ''0123456789'')"

text \<open>The value of a decimal digit, from its character code.\<close>

definition digit_value :: "char \<Rightarrow> nat" where
  "digit_value c = (if is_digit c then of_char c - 48 else 0)"

definition digit_char :: "nat \<Rightarrow> char" where
  "digit_char n = ''0123456789'' ! (n mod 10)"

text \<open>\<open>BigInt(s)\<close> on a string of decimal digits (\<open>BigInt('')\<close> is \<open>0n\<close>).\<close>

definition BigInt :: "string \<Rightarrow> nat" where
  "BigInt s = foldl (\<lambda>n c. 10 * n + digit_value c) 0 s"

fun to_digits :: "nat \<Rightarrow> string" where
  "to_digits n = (if n < 10 then [digit_char n] else to_digits (n div 10) @ [digit_char n])"

text \<open>\<open>value.split('.')\<close> for a string with at most one dot.\<close>

definition split_dot :: "string \<Rightarrow> string \<times> string option" where
  "split_dot v =
     (takeWhile (\<lambda>c. c \<noteq> CHR ''.'') v,
      case dropWhile (\<lambda>c. c \<noteq> CHR ''.'') v of [] \<Rightarrow> None | _ # f \<Rightarrow> Some f)"

definition strip_minus :: "string \<Rightarrow> string" where
  "strip_minus v = (case v of [] \<Rightarrow> [] | c # r \<Rightarrow> if c = CHR ''-'' then r else v)"

text \<open>The test against \<open>/^(-?)([0-9]*)\.?([0-9]*)$/\<close>.\<close>

definition valid_decimal :: "string \<Rightarrow> bool" where
  "valid_decimal v =
     (case split_dot (strip_minus v) of
        (i, None) \<Rightarrow> list_all is_digit i
      | (i, Some f) \<Rightarrow> list_all is_digit i \<and> list_all is_digit f)"

definition trim_trailing_zeros :: "string \<Rightarrow> string" where
  "trim_trailing_zeros f = rev (dropWhile (\<lambda>c. c = CHR ''0'') (rev f))"

definition padEnd :: "nat \<Rightarrow> string \<Rightarrow> string" where
  "padEnd n s = s @ replicate (n - length s) CHR ''0''"

definition padStart :: "nat \<Rightarrow> string \<Rightarrow> string" where
  "padStart n s = replicate (n - length s) CHR ''0'' @ s"

text \<open>
  \<open>Math.round(Number(unit + '.' + right))\<close> for digit strings, read as rounding half
  up on the first digit of \<open>right\<close>. For the one string the script passes,
  \<open>0.01\<close>, no value near a half occurs.
\<close>

definition round_digits :: "string \<Rightarrow> string \<Rightarrow> nat" where
  "round_digits unit right =
     BigInt unit + (case right of [] \<Rightarrow> 0 | c # _ \<Rightarrow> if 5 \<le> digit_value c then 1 else 0)"

text \<open>
  The library's \<open>parseUnits(value, decimals)\<close>: the decimal string \<open>value\<close> times
  \<open>10 ^ decimals\<close>, rounded to an integer when the fraction has more digits than
  \<open>decimals\<close>.
\<close>

definition parseUnits :: "string \<Rightarrow> nat \<Rightarrow> js_error + int" where
  "parseUnits v decimals =
     (if \<not> valid_decimal v then Inl (JsError ''InvalidDecimalNumberError'' v)
      else
        let negative = (v \<noteq> strip_minus v);
            integer0 = strip_minus (fst (split_dot v));
            fraction0 = trim_trailing_zeros
                          (case snd (split_dot v) of None \<Rightarrow> ''0'' | Some f \<Rightarrow> f);
            (integer, fraction) =
              (if decimals = 0 then
                 (if round_digits [] fraction0 = 1 then to_digits (BigInt integer0 + 1)
                  else integer0, [])
               else if decimals < length fraction0 then
                 let left = take (decimals - 1) fraction0;
                     unit = take 1 (drop (decimals - 1) fraction0);
                     right = drop decimals fraction0;
                     rounded = round_digits unit right;
                     fraction1 =
                       (if 9 < rounded
                        then padStart (length left + 1) (to_digits (BigInt left + 1) @ ''0'')
                        else left @ to_digits rounded)
                 in if decimals < length fraction1
                    then (to_digits (BigInt integer0 + 1), take decimals (tl fraction1))
                    else (integer0, take decimals fraction1)
               else (integer0, padEnd decimals fraction0));
            magnitude = int (BigInt (integer @ fraction))
        in Inr (if negative then - magnitude else magnitude))"

text \<open>
  \<open>Promise.all\<close> of three promises: all three are started; it fulfils with the three
  values when all fulfil, and rejects with the reason of the promise that rejects
  first in time (the earlier one in the array on a tie).
\<close>

fun first_rejected :: "nat \<times> js_error \<Rightarrow> (nat \<times> js_error) list \<Rightarrow> js_error" where
  "first_rejected (t, e) [] = e"
| "first_rejected (t, e) ((t', e') # rest) =
     (if t' < t then first_rejected (t', e') rest else first_rejected (t, e) rest)"

definition rejection :: "nat \<Rightarrow> js_error + 'a \<Rightarrow> (nat \<times> js_error) list" where
  "rejection t r = (case r of Inl e \<Rightarrow> [(t, e)] | Inr _ \<Rightarrow> [])"

definition Promise_all3 ::
  "nat \<Rightarrow> js_error + 'a \<Rightarrow> nat \<Rightarrow> js_error + 'b \<Rightarrow> nat \<Rightarrow> js_error + 'c
     \<Rightarrow> js_error + ('a \<times> 'b \<times> 'c)" where
  "Promise_all3 t1 r1 t2 r2 t3 r3 =
     (case r1 of
        Inl e1 \<Rightarrow> Inl (first_rejected (t1, e1) (rejection t2 r2 @ rejection t3 r3))
      | Inr v1 \<Rightarrow>
          (case r2 of
             Inl e2 \<Rightarrow> Inl (first_rejected (t2, e2) (rejection t3 r3))
           | Inr v2 \<Rightarrow>
               (case r3 of
                  Inl e3 \<Rightarrow> Inl e3
                | Inr v3 \<Rightarrow> Inr (v1, v2, v3))))"

text \<open>
  The library's \<open>simulateContract\<close>: a dry-run call of the encoded function; when it
  does not revert, the parameters come back as the \<open>request\<close> to send.
\<close>

definition simulateContract :: "world \<Rightarrow> contract_request \<Rightarrow> js_error + contract_request" where
  "simulateContract w params =
     (case simulate_call w params of Inl e \<Rightarrow> Inl e | Inr result \<Rightarrow> Inr params)"

subsection \<open>Module level: configuration, transport, account (lines 69 to 99)\<close>

record script =
  chainName :: chain_name
  tokenAddress :: address
  rpcUrl :: "string option"
  transport_url :: string
  isUsingFallback :: bool
  account :: "account option"
  accountAddress :: address

text \<open>
  \<open>let rpcUrl = customRpcUrl; if (!rpcUrl) rpcUrl = process.env[rpcEnvVar]\<close>
\<close>

definition resolve_rpcUrl :: "config \<Rightarrow> string option" where
  "resolve_rpcUrl cfg =
     (if truthy (argv_rpc_url cfg) then argv_rpc_url cfg
      else process_env cfg (RPC_ENV_VAR_BY_CHAIN (argv_chain cfg)))"

text \<open>
  \<open>http(rpcUrl)\<close> inside \<open>createPublicClient({chain, transport})\<close>: the library's
  transport uses \<open>rpcUrl\<close> when it is a non-empty string and the first default
  endpoint of the chain otherwise. The string is not parsed at construction.
\<close>

definition http_url :: "string option \<Rightarrow> chain_name \<Rightarrow> string" where
  "http_url url c = (case url of None \<Rightarrow> default_rpc_url c
                     | Some u \<Rightarrow> if u = [] then default_rpc_url c else u)"

definition module_init :: "world \<Rightarrow> config \<Rightarrow> js_error + script" where
  "module_init w cfg =
     (let MNEMONIC = process_env cfg ''MNEMONIC'';
          base_script = \<lparr> chainName = argv_chain cfg,
                          tokenAddress = TOKEN_ADDRESS_BY_CHAIN (argv_chain cfg),
                          rpcUrl = resolve_rpcUrl cfg,
                          transport_url = http_url (resolve_rpcUrl cfg) (argv_chain cfg),
                          isUsingFallback = (\<not> truthy MNEMONIC),
                          account = None,
                          accountAddress = FALLBACK_ADDRESS \<rparr>
      in case MNEMONIC of
           None \<Rightarrow> Inr base_script
         | Some m \<Rightarrow>
             if m = [] then Inr base_script
             else (case mnemonicToAccount w m of
                     Inl e \<Rightarrow> Inl e
                   | Inr a \<Rightarrow>
                       Inr (base_script
                             \<lparr> account := Some a,
                               accountAddress :=
                                 (if account_address a = [] then FALLBACK_ADDRESS
                                  else account_address a) \<rparr>)))"

subsection \<open>The async function (lines 101 to 213)\<close>

text \<open>Lines 117 to 141: the native balance, then the three token reads together.\<close>

definition read_events :: "script \<Rightarrow> event list" where
  "read_events s =
     [EvReadContract (tokenAddress s) ''symbol'' [],
      EvReadContract (tokenAddress s) ''decimals'' [],
      EvReadContract (tokenAddress s) ''balanceOf'' [AbiAddress (accountAddress s)]]"

definition token_reads :: "world \<Rightarrow> script \<Rightarrow> js_error + (string \<times> nat \<times> int)" where
  "token_reads w s =
     Promise_all3
       (settle_time w ReadSymbol) (readContract_symbol w (tokenAddress s))
       (settle_time w ReadDecimals) (readContract_decimals w (tokenAddress s))
       (settle_time w ReadBalanceOf)
         (readContract_balanceOf w (tokenAddress s) (accountAddress s))"

definition read_stage ::
  "world \<Rightarrow> script \<Rightarrow> event list \<times> (js_error + (int \<times> string \<times> nat \<times> int))" where
  "read_stage w s =
     (case getBalance w (accountAddress s) of
        Inl e \<Rightarrow> ([EvGetBalance (accountAddress s)], Inl e)
      | Inr nativeBalance \<Rightarrow>
          (EvGetBalance (accountAddress s) # read_events s,
           case token_reads w s of
             Inl e \<Rightarrow> Inl e
           | Inr (tokenSymbol, tokenDecimals, tokenBalance) \<Rightarrow>
               Inr (nativeBalance, tokenSymbol, tokenDecimals, tokenBalance)))"

text \<open>Lines 190 to 212: the read-only return, the account guard, sending, the receipt.\<close>

definition write_params :: "account \<Rightarrow> contract_request \<Rightarrow> write_request" where
  \<comment> \<open>\<open>{...request, account}\<close>\<close>
  "write_params acc request =
     \<lparr> wr_account = acc, wr_address = req_address request,
       wr_functionName = req_functionName request, wr_args = req_args request \<rparr>"

definition send_transaction ::
  "world \<Rightarrow> write_request \<Rightarrow> event list \<times> (js_error + outcome)" where
  "send_transaction w wp =
     (case writeContract w wp of
        Inl e \<Rightarrow> ([EvWriteContract wp], Inl e)
      | Inr txHash \<Rightarrow>
          ([EvWriteContract wp, EvWaitForTransactionReceipt txHash],
           case waitForTransactionReceipt w txHash of
             Inl e \<Rightarrow> Inl e
           | Inr txReceipt \<Rightarrow> Inr (Completed txReceipt)))"

definition send_stage ::
  "world \<Rightarrow> script \<Rightarrow> contract_request \<Rightarrow> event list \<times> (js_error + outcome)" where
  "send_stage w s request =
     (if isUsingFallback s then ([], Inr ReadOnlyCompleted)
      else
        (case account s of
           None \<Rightarrow> ([], Inl (JsError ''Error'' ''Account is required for transaction sending''))
         | Some acc \<Rightarrow> send_transaction w (write_params acc request)))"

text \<open>Lines 176 to 188: the access-list request built from the simulated request.\<close>

definition access_list_params :: "script \<Rightarrow> contract_request \<Rightarrow> access_list_request" where
  "access_list_params s request =
     \<lparr> al_account = accountAddress s,
       al_to = req_address request,
       al_data = encodeFunctionData (req_functionName request) (req_args request),
       al_value = 0,
       al_gas = None \<rparr>"

definition access_list_stage ::
  "world \<Rightarrow> script \<Rightarrow> contract_request \<Rightarrow> event list \<times> (js_error + outcome)" where
  "access_list_stage w s request =
     (case createAccessList w (access_list_params s request) of
        Inl e \<Rightarrow> ([EvCreateAccessList (access_list_params s request)], Inl e)
      | Inr result \<Rightarrow>
          (EvCreateAccessList (access_list_params s request) # fst (send_stage w s request),
           snd (send_stage w s request)))"

text \<open>Lines 161 to 174: the simulated transfer to self.\<close>

definition simulate_params :: "script \<Rightarrow> int \<Rightarrow> contract_request" where
  "simulate_params s amount =
     \<lparr> req_account = accountAddress s,
       req_address = tokenAddress s,
       req_functionName = ''transfer'',
       req_args = [AbiAddress (accountAddress s), AbiUint amount] \<rparr>"

definition simulate_stage ::
  "world \<Rightarrow> script \<Rightarrow> nat \<Rightarrow> event list \<times> (js_error + outcome)" where
  "simulate_stage w s tokenDecimals =
     (case parseUnits TOKEN_SEND_AMOUNT tokenDecimals of
        Inl e \<Rightarrow> ([], Inl e)
      | Inr amount \<Rightarrow>
          (case simulateContract w (simulate_params s amount) of
             Inl e \<Rightarrow> ([EvSimulateContract (simulate_params s amount)], Inl e)
           | Inr request \<Rightarrow>
               (EvSimulateContract (simulate_params s amount)
                  # fst (access_list_stage w s request),
                snd (access_list_stage w s request))))"

text \<open>The whole function, with the balance check of lines 145 to 148.\<close>

definition main_flow :: "world \<Rightarrow> script \<Rightarrow> event list \<times> (js_error + outcome)" where
  "main_flow w s =
     (case snd (read_stage w s) of
        Inl e \<Rightarrow> (fst (read_stage w s), Inl e)
      | Inr (nativeBalance, tokenSymbol, tokenDecimals, tokenBalance) \<Rightarrow>
          if tokenBalance \<le> 0 \<and> \<not> isUsingFallback s
          then (fst (read_stage w s),
                Inl (JsError ''Error'' (''Please add '' @ tokenSymbol @ '' to your account'')))
          else (fst (read_stage w s) @ fst (simulate_stage w s tokenDecimals),
                snd (simulate_stage w s tokenDecimals)))"

text \<open>A run of the script: the module level, then the async function.\<close>

definition run :: "world \<Rightarrow> config \<Rightarrow> event list \<times> (js_error + outcome)" where
  "run w cfg =
     (case module_init w cfg of
        Inl e \<Rightarrow> ([], Inl e)
      | Inr s \<Rightarrow> main_flow w s)"

subsection \<open>Reading a run\<close>

text \<open>The kind of operation behind each call.\<close>

datatype operation = Read | Simulate | AccessListRequest | Submit | Poll

fun operation_of :: "event \<Rightarrow> operation" where
  "operation_of (EvGetBalance a) = Read"
| "operation_of (EvReadContract a f xs) = Read"
| "operation_of (EvSimulateContract p) = Simulate"
| "operation_of (EvCreateAccessList p) = AccessListRequest"
| "operation_of (EvWriteContract p) = Submit"
| "operation_of (EvWaitForTransactionReceipt h) = Poll"

definition operations :: "event list \<Rightarrow> operation list" where
  "operations tr = map operation_of tr"

definition submissions :: "event list \<Rightarrow> event list" where
  "submissions tr = filter (\<lambda>ev. operation_of ev = Submit) tr"

subsection \<open>The four reads, issued one after another in a given order\<close>

text \<open>
  The script issues the native balance read first and the three token reads together.
  To compare this with other orders, \<open>reads_in_order\<close> issues the same four calls
  one at a time in the order of a list, awaiting each: the first rejection ends it,
  and the values are collected by query.
\<close>

datatype read_query = NativeBalance | TokenSymbol | TokenDecimals | TokenBalance

datatype read_value = BigIntValue int | StringValue string | NumberValue nat

definition all_reads :: "read_query list" where
  "all_reads = [NativeBalance, TokenSymbol, TokenDecimals, TokenBalance]"

fun perform_read :: "world \<Rightarrow> script \<Rightarrow> read_query \<Rightarrow> js_error + read_value" where
  "perform_read w s NativeBalance = map_sum id BigIntValue (getBalance w (accountAddress s))"
| "perform_read w s TokenSymbol =
     map_sum id StringValue (readContract_symbol w (tokenAddress s))"
| "perform_read w s TokenDecimals =
     map_sum id NumberValue (readContract_decimals w (tokenAddress s))"
| "perform_read w s TokenBalance =
     map_sum id BigIntValue (readContract_balanceOf w (tokenAddress s) (accountAddress s))"

fun reads_in_order ::
  "world \<Rightarrow> script \<Rightarrow> read_query list \<Rightarrow> js_error + (read_query \<times> read_value) list" where
  "reads_in_order w s [] = Inr []"
| "reads_in_order w s (q # qs) =
     (case perform_read w s q of
        Inl e \<Rightarrow> Inl e
      | Inr v \<Rightarrow>
          (case reads_in_order w s qs of
             Inl e \<Rightarrow> Inl e
           | Inr vs \<Rightarrow> Inr ((q, v) # vs)))"

text \<open>The final results of a series of reads: the value of each query, or the rejection.\<close>

definition final_results ::
  "js_error + (read_query \<times> read_value) list \<Rightarrow> js_error + read_value option list" where
  "final_results r =
     (case r of Inl e \<Rightarrow> Inl e | Inr vs \<Rightarrow> Inr (map (map_of vs) all_reads))"

text \<open>The same, for what the script's own read stage returns.\<close>

definition stage_results ::
  "js_error + (int \<times> string \<times> nat \<times> int) \<Rightarrow> js_error + read_value option list" where
  "stage_results r =
     (case r of
        Inl e \<Rightarrow> Inl e
      | Inr (nativeBalance, tokenSymbol, tokenDecimals, tokenBalance) \<Rightarrow>
          Inr [Some (BigIntValue nativeBalance), Some (StringValue tokenSymbol),
               Some (NumberValue tokenDecimals), Some (BigIntValue tokenBalance)])"

text \<open>The distinct reasons with which reads of the response mapping reject.\<close>

definition rejection_reasons :: "world \<Rightarrow> script \<Rightarrow> js_error list" where
  "rejection_reasons w s =
     remdups (concat (map (\<lambda>q. case perform_read w s q of Inl e \<Rightarrow> [e] | Inr v \<Rightarrow> [])
                          all_reads))"

subsection \<open>Example providers and configurations\<close>

text \<open>
  A provider that answers every call, with the values of the repository's working
  example: 0.1 of the native currency, USDC with 6 decimals, a balance of 1 USDC.
\<close>

definition example_hash :: string where
  "example_hash = ''0xd59f861eb82c5fc5c08495a8b7ca5f44e181d4e12bc253d6dff40de1c3e9243b''"

definition example_mnemonic :: string where
  "example_mnemonic = ''test test test test test test test test test test test junk''"

definition example_signer :: account where
  "example_signer = LocalAccount ''0xf39Fd6e51aad88F6F4ce6aB8827279cffFb92266''"

definition working_provider :: world where
  "working_provider =
     \<lparr> mnemonicToAccount = (\<lambda>m. Inr example_signer),
       getBalance = (\<lambda>a. Inr 100000000000000000),
       readContract_symbol = (\<lambda>a. Inr ''USDC''),
       readContract_decimals = (\<lambda>a. Inr 6),
       readContract_balanceOf = (\<lambda>a b. Inr 1000000),
       simulate_call = (\<lambda>p. Inr True),
       createAccessList =
         (\<lambda>p. Inr \<lparr> accessList = [(al_to p, [])], gasUsed = 39347 \<rparr>),
       writeContract = (\<lambda>p. Inr example_hash),
       waitForTransactionReceipt =
         (\<lambda>h. Inr \<lparr> transactionHash = h, status = Success,
                      receipt_gasUsed = 39347, blockNumber = 1 \<rparr>),
       settle_time = (\<lambda>r. 0) \<rparr>"

text \<open>The official Celo endpoint of the README: the method is not whitelisted.\<close>

definition not_whitelisted :: js_error where
  "not_whitelisted = JsError ''RpcError'' ''rpc method is not whitelisted''"

definition forno_provider :: world where
  "forno_provider = working_provider \<lparr> createAccessList := (\<lambda>p. Inl not_whitelisted) \<rparr>"



text \<open>A provider on which two of the concurrent reads reject, for different reasons.\<close>

definition symbol_rejected :: js_error where
  "symbol_rejected = JsError ''ContractFunctionExecutionError'' ''symbol''"

definition decimals_rejected :: js_error where
  "decimals_rejected = JsError ''ContractFunctionExecutionError'' ''decimals''"

fun symbol_first :: "token_read \<Rightarrow> nat" where
  "symbol_first ReadSymbol = 0"
| "symbol_first ReadDecimals = 1"
| "symbol_first ReadBalanceOf = 2"

fun decimals_first :: "token_read \<Rightarrow> nat" where
  "decimals_first ReadSymbol = 1"
| "decimals_first ReadDecimals = 0"
| "decimals_first ReadBalanceOf = 2"

definition failing_reads_provider :: world where
  "failing_reads_provider =
     working_provider
       \<lparr> readContract_symbol := (\<lambda>a. Inl symbol_rejected),
         readContract_decimals := (\<lambda>a. Inl decimals_rejected) \<rparr>"

text \<open>No option, no environment variable: the read-only run on Base.\<close>

definition bare_config :: config where
  "bare_config = \<lparr> argv_chain = Base, argv_rpc_url = None, process_env = (\<lambda>k. None) \<rparr>"

definition signing_config :: config where
  "signing_config =
     \<lparr> argv_chain = Celo, argv_rpc_url = Some ''https://forno.celo.org'',
       process_env = (\<lambda>k. if k = ''MNEMONIC'' then Some example_mnemonic else None) \<rparr>"

definition read_only_script :: script where
  "read_only_script =
     \<lparr> chainName = Base,
       tokenAddress = ''0x833589fcd6edb6e08f4c7c32d4f71b54bda02913'',
       rpcUrl = None,
       transport_url = ''https://mainnet.base.org'',
       isUsingFallback = True,
       account = None,
       accountAddress = ''0xe30E59040385cfa09e5C61241C20f0673F314C98'' \<rparr>"

definition signing_script :: script where
  "signing_script =
     \<lparr> chainName = Celo,
       tokenAddress = ''0xceba9300f2b948710d2653dd7b07f33a8b32118c'',
       rpcUrl = Some ''https://forno.celo.org'',
       transport_url = ''https://forno.celo.org'',
       isUsingFallback = False,
       account = Some example_signer,
       accountAddress = ''0xf39Fd6e51aad88F6F4ce6aB8827279cffFb92266'' \<rparr>"





text \<open>The state that only the guard of line 198 stops: send mode without an account.\<close>

definition guarded_script :: script where
  "guarded_script = read_only_script \<lparr> isUsingFallback := False \<rparr>"

definition example_transfer :: "address \<Rightarrow> address \<Rightarrow> contract_request" where
  "example_transfer token holder =
     \<lparr> req_account = holder, req_address = token, req_functionName = ''transfer'',
       req_args = [AbiAddress holder, AbiUint 10000] \<rparr>"

definition example_access_list_request :: "address \<Rightarrow> address \<Rightarrow> access_list_request" where
  "example_access_list_request token holder =
     \<lparr> al_account = holder, al_to = token,
       al_data = EncodedCall ''transfer'' [AbiAddress holder, AbiUint 10000],
       al_value = 0, al_gas = None \<rparr>"

section \<open>Facts about the helpers and the flow\<close>

subsection \<open>The amount that is sent\<close>

lemma digit_value_01: "digit_value CHR ''0'' = 0" "digit_value CHR ''1'' = 1"
  by (simp_all add: digit_value_def is_digit_def)

lemma BigInt_append: "BigInt (xs @ ys) = BigInt xs * 10 ^ length ys + BigInt ys"
  unfolding BigInt_def
proof (induction ys rule: rev_induct)
  case Nil
  then show ?case by simp
next
  case (snoc y ys)
  then show ?case by (simp add: algebra_simps)
qed

lemma BigInt_snoc: "BigInt (xs @ [c]) = 10 * BigInt xs + digit_value c"
  by (simp add: BigInt_def)

lemma BigInt_zeros: "BigInt (replicate n CHR ''0'') = 0"
proof (induction n)
  case 0
  then show ?case by (simp add: BigInt_def)
next
  case (Suc n)
  have "BigInt (replicate (Suc n) CHR ''0'') = BigInt (replicate n CHR ''0'' @ ''0'')"
    by (simp add: replicate_append_same)
  also have "\<dots> = 0"
    using Suc by (simp only: BigInt_snoc) (simp add: digit_value_01)
  finally show ?case .
qed

lemma BigInt_padEnd:
  "BigInt (xs @ padEnd d ys) = BigInt (xs @ ys) * 10 ^ (d - length ys)"
  by (simp add: padEnd_def BigInt_append [of "xs @ ys"] BigInt_zeros flip: append_assoc)

lemma parseUnits_amount_ge2:
  assumes "2 \<le> d"
  shows "parseUnits TOKEN_SEND_AMOUNT d = Inr (int (10 ^ (d - 2)))"
proof -
  have v: "valid_decimal ''0.01''"
    by (simp add: valid_decimal_def split_dot_def strip_minus_def is_digit_def)
  have f: "trim_trailing_zeros ''01'' = ''01''"
    by (simp add: trim_trailing_zeros_def)
  have "BigInt (''0'' @ ''01'') = 1"
    by (simp add: BigInt_def digit_value_01)
  then have b: "BigInt (''0'' @ padEnd d ''01'') = 10 ^ (d - 2)"
    by (simp only: BigInt_padEnd) simp
  show ?thesis
    using assms b
    by (simp add: parseUnits_def TOKEN_SEND_AMOUNT_def v split_dot_def strip_minus_def f Let_def)
qed

lemma parseUnits_amount_lt2:
  assumes "d < 2"
  shows "parseUnits TOKEN_SEND_AMOUNT d = Inr 0"
proof -
  have "d = 0 \<or> d = 1" using assms by arith
  then show ?thesis
  proof
    assume "d = 0"
    then show ?thesis
      by (simp add: parseUnits_def TOKEN_SEND_AMOUNT_def valid_decimal_def split_dot_def strip_minus_def
          is_digit_def trim_trailing_zeros_def Let_def round_digits_def BigInt_def digit_value_01)
  next
    assume "d = 1"
    then show ?thesis
      by (simp add: parseUnits_def TOKEN_SEND_AMOUNT_def valid_decimal_def split_dot_def strip_minus_def
          is_digit_def trim_trailing_zeros_def Let_def round_digits_def BigInt_def digit_value_01 digit_char_def)
  qed
qed

lemma parseUnits_amount: "parseUnits TOKEN_SEND_AMOUNT d = Inr (int (10 ^ d div 100))"
proof (cases "2 \<le> d")
  case True
  then obtain k where "d = k + 2" by (metis le_add_diff_inverse2)
  then have "(10::nat) ^ d div 100 = 10 ^ (d - 2)" by (simp add: power_add)
  with True show ?thesis by (simp add: parseUnits_amount_ge2)
next
  case False
  then have "d = 0 \<or> d = 1" by arith
  then have "(10::nat) ^ d div 100 = 0" by auto
  with False show ?thesis by (simp add: parseUnits_amount_lt2)
qed

subsection \<open>The shape of a run\<close>

lemma Promise_all3_Inr:
  "Promise_all3 t1 r1 t2 r2 t3 r3 = Inr (a, b, c) \<longleftrightarrow> r1 = Inr a \<and> r2 = Inr b \<and> r3 = Inr c"
  by (auto simp: Promise_all3_def split: sum.splits)

lemma token_reads_Inr:
  "token_reads w s = Inr (tokenSymbol, dec, bal) \<longleftrightarrow>
     readContract_symbol w (tokenAddress s) = Inr tokenSymbol \<and>
     readContract_decimals w (tokenAddress s) = Inr dec \<and>
     readContract_balanceOf w (tokenAddress s) (accountAddress s) = Inr bal"
  by (simp add: token_reads_def Promise_all3_Inr)

lemma main_flow_cases
  [case_names balance_rejected reads_rejected no_tokens simulation_rejected
     access_list_rejected read_only no_account write_rejected waited]:
  obtains
    (balance_rejected) e where
      "getBalance w (accountAddress s) = Inl e"
      "main_flow w s = ([EvGetBalance (accountAddress s)], Inl e)"
  | (reads_rejected) nb e where
      "getBalance w (accountAddress s) = Inr nb"
      "token_reads w s = Inl e"
      "main_flow w s = (EvGetBalance (accountAddress s) # read_events s, Inl e)"
  | (no_tokens) nb sym dec bal where
      "getBalance w (accountAddress s) = Inr nb"
      "token_reads w s = Inr (sym, dec, bal)"
      "bal \<le> 0" "\<not> isUsingFallback s"
      "main_flow w s =
         (EvGetBalance (accountAddress s) # read_events s,
          Inl (JsError ''Error'' (''Please add '' @ sym @ '' to your account'')))"
  | (simulation_rejected) nb sym dec bal sp e where
      "getBalance w (accountAddress s) = Inr nb"
      "token_reads w s = Inr (sym, dec, bal)"
      "0 < bal \<or> isUsingFallback s"
      "sp = simulate_params s (int (10 ^ dec div 100))"
      "simulate_call w sp = Inl e"
      "main_flow w s =
         (EvGetBalance (accountAddress s) # read_events s @ [EvSimulateContract sp], Inl e)"
  | (access_list_rejected) nb sym dec bal sp r e where
      "getBalance w (accountAddress s) = Inr nb"
      "token_reads w s = Inr (sym, dec, bal)"
      "0 < bal \<or> isUsingFallback s"
      "sp = simulate_params s (int (10 ^ dec div 100))"
      "simulate_call w sp = Inr r"
      "createAccessList w (access_list_params s sp) = Inl e"
      "main_flow w s =
         (EvGetBalance (accountAddress s) # read_events s @
            [EvSimulateContract sp, EvCreateAccessList (access_list_params s sp)], Inl e)"
  | (read_only) nb sym dec bal sp r res where
      "getBalance w (accountAddress s) = Inr nb"
      "token_reads w s = Inr (sym, dec, bal)"
      "isUsingFallback s"
      "sp = simulate_params s (int (10 ^ dec div 100))"
      "simulate_call w sp = Inr r"
      "createAccessList w (access_list_params s sp) = Inr res"
      "main_flow w s =
         (EvGetBalance (accountAddress s) # read_events s @
            [EvSimulateContract sp, EvCreateAccessList (access_list_params s sp)],
          Inr ReadOnlyCompleted)"
  | (no_account) nb sym dec bal sp r res where
      "getBalance w (accountAddress s) = Inr nb"
      "token_reads w s = Inr (sym, dec, bal)"
      "0 < bal" "\<not> isUsingFallback s" "account s = None"
      "sp = simulate_params s (int (10 ^ dec div 100))"
      "simulate_call w sp = Inr r"
      "createAccessList w (access_list_params s sp) = Inr res"
      "main_flow w s =
         (EvGetBalance (accountAddress s) # read_events s @
            [EvSimulateContract sp, EvCreateAccessList (access_list_params s sp)],
          Inl (JsError ''Error'' ''Account is required for transaction sending''))"
  | (write_rejected) nb sym dec bal sp r res acc e where
      "getBalance w (accountAddress s) = Inr nb"
      "token_reads w s = Inr (sym, dec, bal)"
      "0 < bal" "\<not> isUsingFallback s" "account s = Some acc"
      "sp = simulate_params s (int (10 ^ dec div 100))"
      "simulate_call w sp = Inr r"
      "createAccessList w (access_list_params s sp) = Inr res"
      "writeContract w (write_params acc sp) = Inl e"
      "main_flow w s =
         (EvGetBalance (accountAddress s) # read_events s @
            [EvSimulateContract sp, EvCreateAccessList (access_list_params s sp),
             EvWriteContract (write_params acc sp)], Inl e)"
  | (waited) nb sym dec bal sp r res acc txHash where
      "getBalance w (accountAddress s) = Inr nb"
      "token_reads w s = Inr (sym, dec, bal)"
      "0 < bal" "\<not> isUsingFallback s" "account s = Some acc"
      "sp = simulate_params s (int (10 ^ dec div 100))"
      "simulate_call w sp = Inr r"
      "createAccessList w (access_list_params s sp) = Inr res"
      "writeContract w (write_params acc sp) = Inr txHash"
      "main_flow w s =
         (EvGetBalance (accountAddress s) # read_events s @
            [EvSimulateContract sp, EvCreateAccessList (access_list_params s sp),
             EvWriteContract (write_params acc sp), EvWaitForTransactionReceipt txHash],
          map_sum id Completed (waitForTransactionReceipt w txHash))"
proof (cases "getBalance w (accountAddress s)")
  case (Inl e)
  then show ?thesis
    using balance_rejected by (simp add: main_flow_def read_stage_def)
next
  case nb: (Inr nb)
  show ?thesis
  proof (cases "token_reads w s")
    case (Inl e)
    then show ?thesis
      using reads_rejected nb by (simp add: main_flow_def read_stage_def)
  next
    case (Inr triple)
    then obtain sym dec bal where tr: "token_reads w s = Inr (sym, dec, bal)"
      by (cases triple) auto
    define sp where "sp = simulate_params s (int (10 ^ dec div 100))"
    have stage: "snd (read_stage w s) = Inr (nb, sym, dec, bal)"
      "fst (read_stage w s) = EvGetBalance (accountAddress s) # read_events s"
      using nb tr by (simp_all add: read_stage_def)
    show ?thesis
    proof (cases "bal \<le> 0 \<and> \<not> isUsingFallback s")
      case True
      then show ?thesis
        using no_tokens [OF nb tr] stage by (simp add: main_flow_def)
    next
      case gate: False
      then have gate': "0 < bal \<or> isUsingFallback s" by auto
      have flow: "main_flow w s =
          (EvGetBalance (accountAddress s) # read_events s @ fst (simulate_stage w s dec),
           snd (simulate_stage w s dec))"
      proof -
        have "\<not> (bal \<le> 0 \<and> \<not> isUsingFallback s)" using gate .
        then show ?thesis
          unfolding main_flow_def stage by (simp only: sum.case prod.case if_False append_Cons)
      qed
      show ?thesis
      proof (cases "simulate_call w sp")
        case (Inl e)
        then have "simulate_stage w s dec = ([EvSimulateContract sp], Inl e)"
          by (simp add: simulate_stage_def parseUnits_amount simulateContract_def sp_def)
        then show ?thesis
          using simulation_rejected [OF nb tr gate' sp_def Inl] flow by simp
      next
        case r: (Inr r)
        have sim: "simulate_stage w s dec =
            (EvSimulateContract sp # fst (access_list_stage w s sp),
             snd (access_list_stage w s sp))"
          using r by (simp add: simulate_stage_def parseUnits_amount simulateContract_def sp_def)
        show ?thesis
        proof (cases "createAccessList w (access_list_params s sp)")
          case (Inl e)
          then have "access_list_stage w s sp =
              ([EvCreateAccessList (access_list_params s sp)], Inl e)"
            by (simp add: access_list_stage_def)
          then show ?thesis
            using access_list_rejected [OF nb tr gate' sp_def r Inl] flow sim by simp
        next
          case res: (Inr res)
          have al: "access_list_stage w s sp =
              (EvCreateAccessList (access_list_params s sp) # fst (send_stage w s sp),
               snd (send_stage w s sp))"
            using res by (simp add: access_list_stage_def)
          show ?thesis
          proof (cases "isUsingFallback s")
            case True
            then have "send_stage w s sp = ([], Inr ReadOnlyCompleted)"
              by (simp add: send_stage_def)
            then show ?thesis
              using read_only [OF nb tr True sp_def r res] flow sim al by simp
          next
            case False
            with gate' have pos: "0 < bal" by simp
            show ?thesis
            proof (cases "account s")
              case None
              then have "send_stage w s sp =
                  ([], Inl (JsError ''Error'' ''Account is required for transaction sending''))"
                using False by (simp add: send_stage_def)
              then show ?thesis
                using no_account [OF nb tr pos False None sp_def r res] flow sim al by simp
            next
              case (Some acc)
              then have send: "send_stage w s sp = send_transaction w (write_params acc sp)"
                using False by (simp add: send_stage_def)
              show ?thesis
              proof (cases "writeContract w (write_params acc sp)")
                case (Inl e)
                then have "send_transaction w (write_params acc sp) =
                    ([EvWriteContract (write_params acc sp)], Inl e)"
                  by (simp add: send_transaction_def)
                then show ?thesis
                  using write_rejected [OF nb tr pos False Some sp_def r res Inl] flow sim al send
                  by simp
              next
                case (Inr txHash)
                then have "send_transaction w (write_params acc sp) =
                    ([EvWriteContract (write_params acc sp), EvWaitForTransactionReceipt txHash],
                     map_sum id Completed (waitForTransactionReceipt w txHash))"
                  by (simp add: send_transaction_def split: sum.splits)
                then show ?thesis
                  using waited [OF nb tr pos False Some sp_def r res Inr] flow sim al send
                  by simp
              qed
            qed
          qed
        qed
      qed
    qed
  qed
qed


lemma access_list_rejected_flow:
  assumes "EvCreateAccessList rq \<in> set (fst (main_flow w s))"
    and "createAccessList w rq = Inl e"
  shows "snd (main_flow w s) = Inl e \<and> last (fst (main_flow w s)) = EvCreateAccessList rq \<and>
         submissions (fst (main_flow w s)) = []"
  using assms
  by (cases rule: main_flow_cases [of w s]) (auto simp: read_events_def submissions_def)

lemma run_init: "module_init w cfg = Inr s \<Longrightarrow> run w cfg = main_flow w s"
  by (simp add: run_def)

lemma run_trace_cases:
  "fst (run w cfg) = [] \<or> (\<exists>s. module_init w cfg = Inr s \<and> run w cfg = main_flow w s)"
  by (cases "module_init w cfg") (simp_all add: run_def)

lemma init_fallback: "module_init w cfg = Inr s \<Longrightarrow> isUsingFallback s = (account s = None)"
  by (auto simp: module_init_def Let_def split: option.splits if_splits sum.splits)

lemma no_account_flow:
  assumes "account s = None"
  shows "submissions (fst (main_flow w s)) = []"
    and "isUsingFallback s \<Longrightarrow> snd (main_flow w s) = Inr out \<Longrightarrow>
           out = ReadOnlyCompleted \<and>
           operations (fst (main_flow w s)) = [Read, Read, Read, Read, Simulate, AccessListRequest]"
    and "\<not> isUsingFallback s \<Longrightarrow> isl (snd (main_flow w s))"
  using assms
  by (cases rule: main_flow_cases [of w s];
      simp add: submissions_def operations_def read_events_def)+

lemma flow_order:
  "prefix (operations (fst (main_flow w s)))
     [Read, Read, Read, Read, Simulate, AccessListRequest, Submit, Poll]"
  by (cases rule: main_flow_cases [of w s]) (simp_all add: operations_def read_events_def)

lemma flow_single_submission: "length (submissions (fst (main_flow w s))) \<le> 1"
  by (cases rule: main_flow_cases [of w s]) (simp_all add: submissions_def read_events_def)

lemma flow_access_list_after_simulation:
  assumes "EvCreateAccessList rq \<in> set (fst (main_flow w s))"
  shows "\<exists>sp r. EvSimulateContract sp \<in> set (fst (main_flow w s)) \<and> simulate_call w sp = Inr r"
  using assms
  by (cases rule: main_flow_cases [of w s]) (auto simp: read_events_def)

lemma flow_submission_after_access_list:
  assumes "EvWriteContract wp \<in> set (fst (main_flow w s))"
  shows "\<exists>rq res. EvCreateAccessList rq \<in> set (fst (main_flow w s)) \<and>
           createAccessList w rq = Inr res"
  using assms
  by (cases rule: main_flow_cases [of w s]) (auto simp: read_events_def)

lemma flow_poll_after_submission:
  assumes "EvWaitForTransactionReceipt h \<in> set (fst (main_flow w s))"
  shows "(\<exists>wp. EvWriteContract wp \<in> set (fst (main_flow w s)) \<and> writeContract w wp = Inr h) \<and>
         last (fst (main_flow w s)) = EvWaitForTransactionReceipt h \<and>
         snd (main_flow w s) = map_sum id Completed (waitForTransactionReceipt w h)"
  using assms
  by (cases rule: main_flow_cases [of w s]) (auto simp: read_events_def)

lemma flow_simulation:
  assumes "EvSimulateContract sp \<in> set (fst (main_flow w s))"
  shows "\<exists>d. readContract_decimals w (tokenAddress s) = Inr d \<and>
           sp = simulate_params s (int (10 ^ d div 100))"
    and "simulate_call w sp = Inl e \<Longrightarrow>
           snd (main_flow w s) = Inl e \<and> last (fst (main_flow w s)) = EvSimulateContract sp"
  using assms
  by (cases rule: main_flow_cases [of w s]; auto simp: read_events_def token_reads_Inr)+


lemma flow_access_list_request:
  assumes "EvCreateAccessList rq \<in> set (fst (main_flow w s))"
  shows "\<exists>request. EvSimulateContract request \<in> set (fst (main_flow w s)) \<and>
           simulateContract w request = Inr request \<and>
           rq = access_list_params s request \<and> req_account request = accountAddress s"
  using assms
  by (cases rule: main_flow_cases [of w s])
     (auto simp: read_events_def simulateContract_def simulate_params_def)

lemma read_stage_Inr:
  "snd (read_stage w s) = Inr (nb, tokenSymbol, dec, bal) \<longleftrightarrow>
     getBalance w (accountAddress s) = Inr nb \<and> token_reads w s = Inr (tokenSymbol, dec, bal)"
  by (auto simp: read_stage_def split: sum.splits)


subsection \<open>The reads in any order\<close>

lemma all_reads_UNIV: "q \<in> set all_reads"
  by (cases q) (simp_all add: all_reads_def)

lemma reasons_iff:
  "e \<in> set (rejection_reasons w s) \<longleftrightarrow> (\<exists>q. perform_read w s q = Inl e)"
proof
  assume "e \<in> set (rejection_reasons w s)"
  then obtain q where "q \<in> set all_reads"
    and "e \<in> set (case perform_read w s q of Inl e \<Rightarrow> [e] | Inr v \<Rightarrow> [])"
    by (auto simp: rejection_reasons_def)
  then have "perform_read w s q = Inl e"
    by (cases "perform_read w s q") simp_all
  then show "\<exists>q. perform_read w s q = Inl e" ..
next
  assume "\<exists>q. perform_read w s q = Inl e"
  then obtain q where "perform_read w s q = Inl e" ..
  then have "e \<in> set (case perform_read w s q of Inl e \<Rightarrow> [e] | Inr v \<Rightarrow> [])" by simp
  with all_reads_UNIV [of q] show "e \<in> set (rejection_reasons w s)"
    unfolding rejection_reasons_def set_remdups set_concat set_map by blast
qed

lemma single_reason:
  assumes "length (rejection_reasons w s) \<le> 1"
    and "perform_read w s q = Inl e" and "perform_read w s q' = Inl e'"
  shows "e = e'"
proof -
  have "e \<in> set (rejection_reasons w s)" "e' \<in> set (rejection_reasons w s)"
    using assms(2,3) by (auto simp: reasons_iff)
  moreover from assms(1) have "rejection_reasons w s = [] \<or> (\<exists>x. rejection_reasons w s = [x])"
    by (cases "rejection_reasons w s") auto
  ultimately show ?thesis by auto
qed

lemma no_reason:
  "rejection_reasons w s = [] \<longleftrightarrow> (\<forall>q. \<exists>v. perform_read w s q = Inr v)"
proof -
  have "rejection_reasons w s = [] \<longleftrightarrow> (\<forall>e. e \<notin> set (rejection_reasons w s))"
    by (cases "rejection_reasons w s") auto
  also have "\<dots> \<longleftrightarrow> (\<forall>q e. perform_read w s q \<noteq> Inl e)"
    by (auto simp: reasons_iff)
  also have "\<dots> \<longleftrightarrow> (\<forall>q. \<exists>v. perform_read w s q = Inr v)"
    by (metis sum.exhaust sum.distinct(1))
  finally show ?thesis .
qed

lemma reads_in_order_Inl:
  "reads_in_order w s ord = Inl e \<Longrightarrow> \<exists>q\<in>set ord. perform_read w s q = Inl e"
  by (induction ord) (auto split: sum.splits)

lemma reads_in_order_Inr:
  "reads_in_order w s ord = Inr vs \<Longrightarrow>
     vs = map (\<lambda>q. (q, projr (perform_read w s q))) ord \<and>
     (\<forall>q\<in>set ord. \<exists>v. perform_read w s q = Inr v)"
  by (induction ord arbitrary: vs) (auto split: sum.splits)

lemma reads_in_order_total:
  "\<forall>q\<in>set ord. \<exists>v. perform_read w s q = Inr v \<Longrightarrow>
     reads_in_order w s ord = Inr (map (\<lambda>q. (q, projr (perform_read w s q))) ord)"
  by (induction ord) auto

lemma map_of_reads:
  "q \<in> set ord \<Longrightarrow> map_of (map (\<lambda>q. (q, f q)) ord) q = Some (f q)"
  by (induction ord) auto

lemma final_results_success:
  assumes "set ord = set all_reads" and "rejection_reasons w s = []"
  shows "final_results (reads_in_order w s ord) =
           Inr (map (\<lambda>q. Some (projr (perform_read w s q))) all_reads)"
proof -
  from assms(2) have "\<forall>q\<in>set ord. \<exists>v. perform_read w s q = Inr v"
    by (simp add: no_reason)
  then have "reads_in_order w s ord = Inr (map (\<lambda>q. (q, projr (perform_read w s q))) ord)"
    by (rule reads_in_order_total)
  moreover have "map_of (map (\<lambda>q. (q, projr (perform_read w s q))) ord) q =
      Some (projr (perform_read w s q))" for q
    using assms(1) all_reads_UNIV [of q] by (intro map_of_reads) simp
  ultimately show ?thesis by (simp add: final_results_def)
qed

lemma final_results_failure:
  assumes "set ord = set all_reads" and "rejection_reasons w s \<noteq> []"
  shows "\<exists>e q. final_results (reads_in_order w s ord) = Inl e \<and> perform_read w s q = Inl e"
proof (cases "reads_in_order w s ord")
  case (Inl e)
  with reads_in_order_Inl [OF Inl] show ?thesis by (auto simp: final_results_def)
next
  case (Inr vs)
  from reads_in_order_Inr [OF Inr] assms(1) have "\<forall>q. \<exists>v. perform_read w s q = Inr v"
    using all_reads_UNIV by auto
  with assms(2) show ?thesis by (simp add: no_reason)
qed

lemma first_rejected_mem: "first_rejected p xs \<in> insert (snd p) (snd ` set xs)"
  by (induction p xs rule: first_rejected.induct) auto

lemma rejection_mem: "x \<in> snd ` set (rejection t r) \<longleftrightarrow> r = Inl x"
  by (cases r) (auto simp: rejection_def)

lemma Promise_all3_Inl:
  assumes "Promise_all3 t1 r1 t2 r2 t3 r3 = Inl e"
  shows "r1 = Inl e \<or> r2 = Inl e \<or> r3 = Inl e"
proof (cases r1)
  case (Inl x1)
  with assms have "e = first_rejected (t1, x1) (rejection t2 r2 @ rejection t3 r3)"
    by (simp add: Promise_all3_def)
  with first_rejected_mem [of "(t1, x1)" "rejection t2 r2 @ rejection t3 r3"]
  have "e = x1 \<or> e \<in> snd ` set (rejection t2 r2) \<or> e \<in> snd ` set (rejection t3 r3)"
    by (auto simp: image_Un)
  with Inl show ?thesis by (auto simp: rejection_mem)
next
  case v1: (Inr v1)
  show ?thesis
  proof (cases r2)
    case (Inl x2)
    with assms v1 have "e = first_rejected (t2, x2) (rejection t3 r3)"
      by (simp add: Promise_all3_def)
    with first_rejected_mem [of "(t2, x2)" "rejection t3 r3"]
    have "e = x2 \<or> e \<in> snd ` set (rejection t3 r3)"
      by auto
    with Inl show ?thesis by (auto simp: rejection_mem)
  next
    case v2: (Inr v2)
    with assms v1 show ?thesis
      by (cases r3) (simp_all add: Promise_all3_def)
  qed
qed

lemma stage_results_success:
  assumes "rejection_reasons w s = []"
  shows "stage_results (snd (read_stage w s)) =
           Inr (map (\<lambda>q. Some (projr (perform_read w s q))) all_reads)"
proof -
  from assms have ok: "\<exists>v. perform_read w s q = Inr v" for q
    by (simp add: no_reason)
  from ok [of NativeBalance] obtain nb where nb: "getBalance w (accountAddress s) = Inr nb"
    by (cases "getBalance w (accountAddress s)") auto
  from ok [of TokenSymbol] obtain sy where sy: "readContract_symbol w (tokenAddress s) = Inr sy"
    by (cases "readContract_symbol w (tokenAddress s)") auto
  from ok [of TokenDecimals] obtain d where d: "readContract_decimals w (tokenAddress s) = Inr d"
    by (cases "readContract_decimals w (tokenAddress s)") auto
  from ok [of TokenBalance] obtain b
    where b: "readContract_balanceOf w (tokenAddress s) (accountAddress s) = Inr b"
    by (cases "readContract_balanceOf w (tokenAddress s) (accountAddress s)") auto
  have "snd (read_stage w s) = Inr (nb, sy, d, b)"
    using nb sy d b by (simp add: read_stage_Inr token_reads_Inr)
  then show ?thesis
    using nb sy d b by (simp add: stage_results_def all_reads_def)
qed

lemma stage_results_failure:
  assumes "rejection_reasons w s \<noteq> []"
  shows "\<exists>e q. stage_results (snd (read_stage w s)) = Inl e \<and> perform_read w s q = Inl e"
proof (cases "getBalance w (accountAddress s)")
  case (Inl e)
  then have "stage_results (snd (read_stage w s)) = Inl e"
    by (simp add: read_stage_def stage_results_def)
  moreover have "perform_read w s NativeBalance = Inl e" using Inl by simp
  ultimately show ?thesis by blast
next
  case nb: (Inr nb)
  show ?thesis
  proof (cases "token_reads w s")
    case (Inl e)
    then have "stage_results (snd (read_stage w s)) = Inl e"
      using nb by (simp add: read_stage_def stage_results_def)
    moreover from Inl have "readContract_symbol w (tokenAddress s) = Inl e \<or>
        readContract_decimals w (tokenAddress s) = Inl e \<or>
        readContract_balanceOf w (tokenAddress s) (accountAddress s) = Inl e"
      unfolding token_reads_def by (rule Promise_all3_Inl)
    then have "perform_read w s TokenSymbol = Inl e \<or> perform_read w s TokenDecimals = Inl e \<or>
        perform_read w s TokenBalance = Inl e"
      by auto
    ultimately show ?thesis by blast
  next
    case (Inr triple)
    then obtain sy d b where "token_reads w s = Inr (sy, d, b)" by (cases triple) auto
    then have "\<exists>v. perform_read w s q = Inr v" for q
      using nb by (cases q) (simp_all add: token_reads_Inr)
    with assms show ?thesis by (simp add: no_reason)
  qed
qed

lemma perform_read_settle [simp]:
  "perform_read (w\<lparr>settle_time := t\<rparr>) s q = perform_read w s q"
  by (cases q) simp_all

lemma rejection_reasons_settle [simp]:
  "rejection_reasons (w\<lparr>settle_time := t\<rparr>) s = rejection_reasons w s"
  by (simp add: rejection_reasons_def)

lemma results_agree:
  assumes "length (rejection_reasons w s) \<le> 1"
    and "\<exists>e q. r = Inl e \<and> perform_read w s q = Inl e"
    and "\<exists>e q. r' = Inl e \<and> perform_read w s q = Inl e"
  shows "r = r'"
  using assms single_reason [OF assms(1)] by metis

lemma fst_read_stage_settle:
  "fst (read_stage (w\<lparr>settle_time := t\<rparr>) s) = fst (read_stage w s)"
  by (simp add: read_stage_def split: sum.splits)

lemma stage_results_inj: "stage_results r = stage_results r' \<Longrightarrow> r = r'"
  by (auto simp: stage_results_def split: sum.splits)

lemma read_stage_settle:
  assumes "length (rejection_reasons w s) \<le> 1"
  shows "read_stage (w\<lparr>settle_time := t\<rparr>) s = read_stage w s"
proof -
  have "stage_results (snd (read_stage (w\<lparr>settle_time := t\<rparr>) s)) =
      stage_results (snd (read_stage w s))"
  proof (cases "rejection_reasons w s = []")
    case True
    then show ?thesis
      using stage_results_success [of w s] stage_results_success [of "w\<lparr>settle_time := t\<rparr>" s]
      by simp
  next
    case False
    then show ?thesis
      using stage_results_failure [of w s] stage_results_failure [of "w\<lparr>settle_time := t\<rparr>" s]
        results_agree [OF assms]
      by simp
  qed
  then have "snd (read_stage (w\<lparr>settle_time := t\<rparr>) s) = snd (read_stage w s)"
    by (rule stage_results_inj)
  with fst_read_stage_settle [where w = w and t = t and s = s] show ?thesis
    by (simp add: prod_eq_iff)
qed

lemma send_stage_settle:
  "send_stage (w\<lparr>settle_time := t\<rparr>) s request = send_stage w s request"
  by (auto simp: send_stage_def send_transaction_def split: option.splits sum.splits)

lemma access_list_stage_settle:
  "access_list_stage (w\<lparr>settle_time := t\<rparr>) s request = access_list_stage w s request"
  by (simp add: access_list_stage_def send_stage_settle split: sum.splits)

lemma simulate_stage_settle:
  "simulate_stage (w\<lparr>settle_time := t\<rparr>) s d = simulate_stage w s d"
  by (simp add: simulate_stage_def simulateContract_def access_list_stage_settle
      split: sum.splits)

lemma main_flow_settle:
  assumes "length (rejection_reasons w s) \<le> 1"
  shows "main_flow (w\<lparr>settle_time := t\<rparr>) s = main_flow w s"
  unfolding main_flow_def read_stage_settle [OF assms] simulate_stage_settle ..

subsection \<open>The example runs\<close>

lemma working_init_bare: "module_init w bare_config = Inr read_only_script"
  by (simp add: module_init_def bare_config_def read_only_script_def resolve_rpcUrl_def
      http_url_def FALLBACK_ADDRESS_def)

lemma working_init_signing:
  "mnemonicToAccount w example_mnemonic = Inr example_signer \<Longrightarrow>
   module_init w signing_config = Inr signing_script"
  by (simp add: module_init_def signing_config_def signing_script_def resolve_rpcUrl_def
      http_url_def FALLBACK_ADDRESS_def example_mnemonic_def example_signer_def)

lemma run_working_bare:
  "run working_provider bare_config =
     (EvGetBalance FALLBACK_ADDRESS # read_events read_only_script @
      [EvSimulateContract (example_transfer (TOKEN_ADDRESS_BY_CHAIN Base) FALLBACK_ADDRESS),
       EvCreateAccessList (example_access_list_request (TOKEN_ADDRESS_BY_CHAIN Base) FALLBACK_ADDRESS)],
      Inr ReadOnlyCompleted)"
  by (simp add: run_init [OF working_init_bare] main_flow_def read_stage_def token_reads_def
      Promise_all3_def simulate_stage_def parseUnits_amount simulateContract_def
      access_list_stage_def send_stage_def working_provider_def read_only_script_def
      simulate_params_def access_list_params_def encodeFunctionData_def example_transfer_def
      example_access_list_request_def FALLBACK_ADDRESS_def)


lemma signing_init:
  "module_init working_provider signing_config = Inr signing_script"
  "module_init forno_provider signing_config = Inr signing_script"
  by (simp_all add: working_init_signing working_provider_def forno_provider_def)

lemma run_forno_signing:
  "run forno_provider signing_config =
     (EvGetBalance (accountAddress signing_script) # read_events signing_script @
      [EvSimulateContract (example_transfer (TOKEN_ADDRESS_BY_CHAIN Celo) (accountAddress signing_script)),
       EvCreateAccessList (example_access_list_request (TOKEN_ADDRESS_BY_CHAIN Celo) (accountAddress signing_script))],
      Inl not_whitelisted)"
  by (simp only: run_init [OF signing_init(2)])
     (simp add: main_flow_def read_stage_def token_reads_def
      Promise_all3_def simulate_stage_def parseUnits_amount simulateContract_def
      access_list_stage_def send_stage_def working_provider_def forno_provider_def
      signing_script_def
      simulate_params_def access_list_params_def encodeFunctionData_def example_transfer_def
      example_access_list_request_def)

lemma run_working_signing:
  "run working_provider signing_config =
     (EvGetBalance (accountAddress signing_script) # read_events signing_script @
      [EvSimulateContract (example_transfer (TOKEN_ADDRESS_BY_CHAIN Celo) (accountAddress signing_script)),
       EvCreateAccessList (example_access_list_request (TOKEN_ADDRESS_BY_CHAIN Celo) (accountAddress signing_script)),
       EvWriteContract (write_params example_signer (example_transfer (TOKEN_ADDRESS_BY_CHAIN Celo) (accountAddress signing_script))),
       EvWaitForTransactionReceipt example_hash],
      Inr (Completed \<lparr> transactionHash = example_hash, status = Success,
                      receipt_gasUsed = 39347, blockNumber = 1 \<rparr>))"
  by (simp only: run_init [OF signing_init(1)])
     (simp add: write_params_def main_flow_def read_stage_def token_reads_def
      Promise_all3_def simulate_stage_def parseUnits_amount simulateContract_def
      access_list_stage_def send_stage_def send_transaction_def working_provider_def
      signing_script_def
      simulate_params_def access_list_params_def encodeFunctionData_def example_transfer_def
      example_access_list_request_def)


lemma working_reasons: "rejection_reasons working_provider s = []"
  by (simp add: rejection_reasons_def all_reads_def working_provider_def)

section \<open>The claims\<close>

text \<open>
  Claim C1, as stated, fails: on a provider that rejects the access-list request, the
  run with a signing account settles with that rejection after the access-list step
  and submits nothing, where the same run on a working provider goes on to submit
  and wait.
\<close>

theorem recoverable_miss_counterexample:
  "snd (run forno_provider signing_config) = Inl not_whitelisted \<and>
   operations (fst (run forno_provider signing_config)) =
     [Read, Read, Read, Read, Simulate, AccessListRequest] \<and>
   operations (fst (run working_provider signing_config)) =
     [Read, Read, Read, Read, Simulate, AccessListRequest, Submit, Poll]"
  by (simp add: run_forno_signing run_working_signing operations_def read_events_def)

text \<open>
  Claim C1, as amended. The script has no fallback around the access-list request:
  when the request is rejected, the run settles with that very rejection (the cause
  is kept, unmodified), the request is the last call of the run, and nothing is
  submitted.
\<close>

theorem access_list_rejection_aborts:
  assumes "EvCreateAccessList rq \<in> set (fst (run w cfg))"
    and "createAccessList w rq = Inl e"
  shows "snd (run w cfg) = Inl e \<and> last (fst (run w cfg)) = EvCreateAccessList rq \<and>
         submissions (fst (run w cfg)) = []"
proof -
  from assms(1) obtain s where "run w cfg = main_flow w s"
    using run_trace_cases [of w cfg] by auto
  with assms show ?thesis by (simp add: access_list_rejected_flow)
qed

theorem access_list_rejection_aborts_witness:
  "EvCreateAccessList (example_access_list_request (TOKEN_ADDRESS_BY_CHAIN Celo) (accountAddress signing_script))
     \<in> set (fst (run forno_provider signing_config)) \<and>
   createAccessList forno_provider
     (example_access_list_request (TOKEN_ADDRESS_BY_CHAIN Celo) (accountAddress signing_script)) =
     Inl not_whitelisted \<and>
   snd (run forno_provider signing_config) = Inl not_whitelisted \<and>
   last (fst (run forno_provider signing_config)) =
     EvCreateAccessList (example_access_list_request (TOKEN_ADDRESS_BY_CHAIN Celo) (accountAddress signing_script)) \<and>
   submissions (fst (run forno_provider signing_config)) = []"
proof -
  have h1: "EvCreateAccessList (example_access_list_request (TOKEN_ADDRESS_BY_CHAIN Celo) (accountAddress signing_script))
     \<in> set (fst (run forno_provider signing_config))"
    by (simp add: run_forno_signing)
  have h2: "createAccessList forno_provider
     (example_access_list_request (TOKEN_ADDRESS_BY_CHAIN Celo) (accountAddress signing_script)) =
     Inl not_whitelisted"
    by (simp add: forno_provider_def working_provider_def)
  from access_list_rejection_aborts [OF h1 h2] h1 h2 show ?thesis by simp
qed







text \<open>
  Claim C4. Without a signing account nothing is submitted. In read-only mode a run
  that completes has stopped after the access-list step; outside read-only mode the
  guard before sending fails with an error. A run whose module level found no
  mnemonic is in read-only mode.
\<close>

theorem read_only_never_submits:
  assumes "account s = None"
  shows "submissions (fst (main_flow w s)) = [] \<and>
         (isUsingFallback s \<longrightarrow>
            (\<forall>out. snd (main_flow w s) = Inr out \<longrightarrow>
               out = ReadOnlyCompleted \<and>
               operations (fst (main_flow w s)) =
                 [Read, Read, Read, Read, Simulate, AccessListRequest])) \<and>
         (\<not> isUsingFallback s \<longrightarrow>
            isl (snd (main_flow w s)) \<and>
            send_stage w s request =
              ([], Inl (JsError ''Error'' ''Account is required for transaction sending''))) \<and>
         (module_init w cfg = Inr s \<longrightarrow> isUsingFallback s \<and> run w cfg = main_flow w s)"
  using assms no_account_flow [OF assms, of w] init_fallback [of w cfg s]
  by (auto simp: send_stage_def run_init)

theorem read_only_never_submits_witness:
  "account read_only_script = None \<and> isUsingFallback read_only_script \<and>
   module_init working_provider bare_config = Inr read_only_script \<and>
   snd (run working_provider bare_config) = Inr ReadOnlyCompleted \<and>
   submissions (fst (run working_provider bare_config)) = [] \<and>
   operations (fst (run working_provider bare_config)) =
     [Read, Read, Read, Read, Simulate, AccessListRequest] \<and>
   account guarded_script = None \<and> \<not> isUsingFallback guarded_script \<and>
   isl (snd (main_flow working_provider guarded_script)) \<and>
   send_stage working_provider guarded_script
       (example_transfer (TOKEN_ADDRESS_BY_CHAIN Base) FALLBACK_ADDRESS) =
     ([], Inl (JsError ''Error'' ''Account is required for transaction sending''))"
proof -
  have a: "account read_only_script = None" "isUsingFallback read_only_script"
    by (simp_all add: read_only_script_def)
  have g: "account guarded_script = None" "\<not> isUsingFallback guarded_script"
    by (simp_all add: guarded_script_def read_only_script_def)
  have i: "module_init working_provider bare_config = Inr read_only_script"
    by (rule working_init_bare)
  have r: "snd (run working_provider bare_config) = Inr ReadOnlyCompleted"
    by (simp add: run_working_bare)
  from read_only_never_submits [OF a(1), of working_provider _ bare_config] a i r
  have 1: "submissions (fst (run working_provider bare_config)) = [] \<and>
     operations (fst (run working_provider bare_config)) =
       [Read, Read, Read, Read, Simulate, AccessListRequest]"
    by simp
  from read_only_never_submits [OF g(1), of working_provider
      "example_transfer (TOKEN_ADDRESS_BY_CHAIN Base) FALLBACK_ADDRESS" bare_config] g
  have 2: "isl (snd (main_flow working_provider guarded_script)) \<and>
     send_stage working_provider guarded_script
       (example_transfer (TOKEN_ADDRESS_BY_CHAIN Base) FALLBACK_ADDRESS) =
     ([], Inl (JsError ''Error'' ''Account is required for transaction sending''))"
    by simp
  from a g i r 1 2 show ?thesis by simp
qed

text \<open>
  Claim C5. The operations of a run are an initial part of the fixed sequence: the
  four reads, the simulation, the access-list request, the submission, the wait for
  the receipt. So a run submits at most once. The access-list request is only
  issued after a simulation that succeeded, the submission after an access-list
  request that was answered, the wait after a submission that returned the hash
  waited for. The wait is the last call, and the run settles with what the wait
  gives: the receipt (with its status), or the rejection (a timeout).
\<close>

theorem operations_in_sequence:
  "prefix (operations (fst (run w cfg)))
     [Read, Read, Read, Read, Simulate, AccessListRequest, Submit, Poll] \<and>
   length (submissions (fst (run w cfg))) \<le> 1 \<and>
   (EvCreateAccessList rq \<in> set (fst (run w cfg)) \<longrightarrow>
      (\<exists>sp r. EvSimulateContract sp \<in> set (fst (run w cfg)) \<and> simulate_call w sp = Inr r)) \<and>
   (EvWriteContract wp \<in> set (fst (run w cfg)) \<longrightarrow>
      (\<exists>rq' res. EvCreateAccessList rq' \<in> set (fst (run w cfg)) \<and>
         createAccessList w rq' = Inr res)) \<and>
   (EvWaitForTransactionReceipt h \<in> set (fst (run w cfg)) \<longrightarrow>
      (\<exists>wp'. EvWriteContract wp' \<in> set (fst (run w cfg)) \<and> writeContract w wp' = Inr h) \<and>
      last (fst (run w cfg)) = EvWaitForTransactionReceipt h \<and>
      snd (run w cfg) = map_sum id Completed (waitForTransactionReceipt w h))"
proof (cases "module_init w cfg")
  case (Inl e)
  then have "run w cfg = ([], Inl e)" by (simp add: run_def)
  then show ?thesis by (simp add: operations_def submissions_def)
next
  case (Inr s)
  then have "run w cfg = main_flow w s" by (rule run_init)
  then show ?thesis
    using flow_order [of w s] flow_single_submission [of w s]
      flow_access_list_after_simulation [of rq w s]
      flow_submission_after_access_list [of wp w s]
      flow_poll_after_submission [of h w s]
    by simp
qed

theorem operations_in_sequence_witness:
  "EvCreateAccessList (example_access_list_request (TOKEN_ADDRESS_BY_CHAIN Celo) (accountAddress signing_script))
     \<in> set (fst (run working_provider signing_config)) \<and>
   EvWriteContract (write_params example_signer
       (example_transfer (TOKEN_ADDRESS_BY_CHAIN Celo) (accountAddress signing_script)))
     \<in> set (fst (run working_provider signing_config)) \<and>
   EvWaitForTransactionReceipt example_hash \<in> set (fst (run working_provider signing_config)) \<and>
   prefix (operations (fst (run working_provider signing_config)))
     [Read, Read, Read, Read, Simulate, AccessListRequest, Submit, Poll] \<and>
   length (submissions (fst (run working_provider signing_config))) \<le> 1 \<and>
   last (fst (run working_provider signing_config)) = EvWaitForTransactionReceipt example_hash \<and>
   snd (run working_provider signing_config) =
     map_sum id Completed (waitForTransactionReceipt working_provider example_hash)"
proof -
  have m: "EvCreateAccessList (example_access_list_request (TOKEN_ADDRESS_BY_CHAIN Celo) (accountAddress signing_script))
       \<in> set (fst (run working_provider signing_config))"
    "EvWriteContract (write_params example_signer
       (example_transfer (TOKEN_ADDRESS_BY_CHAIN Celo) (accountAddress signing_script)))
       \<in> set (fst (run working_provider signing_config))"
    "EvWaitForTransactionReceipt example_hash \<in> set (fst (run working_provider signing_config))"
    by (simp_all add: run_working_signing)
  from operations_in_sequence [of working_provider signing_config
      "example_access_list_request (TOKEN_ADDRESS_BY_CHAIN Celo) (accountAddress signing_script)"
      "write_params example_signer
         (example_transfer (TOKEN_ADDRESS_BY_CHAIN Celo) (accountAddress signing_script))"
      example_hash] m
  show ?thesis by simp
qed




text \<open>
  Claim C10. Every simulated call is a \<open>transfer\<close> whose recipient is the sending
  account. The access-list request of a run is built from the request that the
  simulation returned: its data is the encoding of that request's function and
  arguments, its \<open>to\<close> is that request's contract address, its account is the
  same, and its value is 0.
\<close>

theorem access_list_request_consistent:
  "(EvSimulateContract sp \<in> set (fst (run w cfg)) \<longrightarrow>
      req_functionName sp = ''transfer'' \<and>
      (\<exists>amount. req_args sp = [AbiAddress (req_account sp), AbiUint amount])) \<and>
   (EvCreateAccessList rq \<in> set (fst (run w cfg)) \<longrightarrow>
      (\<exists>request. EvSimulateContract request \<in> set (fst (run w cfg)) \<and>
         simulateContract w request = Inr request \<and>
         al_data rq = encodeFunctionData (req_functionName request) (req_args request) \<and>
         al_to rq = req_address request \<and>
         al_account rq = req_account request \<and>
         al_value rq = 0))"
proof (cases "module_init w cfg")
  case (Inl e)
  then have "run w cfg = ([], Inl e)" by (simp add: run_def)
  then show ?thesis by simp
next
  case (Inr s)
  then have run: "run w cfg = main_flow w s" by (rule run_init)
  have 1: "EvSimulateContract sp \<in> set (fst (main_flow w s)) \<Longrightarrow>
      req_functionName sp = ''transfer'' \<and>
      (\<exists>amount. req_args sp = [AbiAddress (req_account sp), AbiUint amount])"
    using flow_simulation(1) [of sp w s] by (auto simp: simulate_params_def)
  have 2: "EvCreateAccessList rq \<in> set (fst (main_flow w s)) \<Longrightarrow>
      (\<exists>request. EvSimulateContract request \<in> set (fst (main_flow w s)) \<and>
         simulateContract w request = Inr request \<and>
         al_data rq = encodeFunctionData (req_functionName request) (req_args request) \<and>
         al_to rq = req_address request \<and>
         al_account rq = req_account request \<and>
         al_value rq = 0)"
    using flow_access_list_request [of rq w s] by (auto simp: access_list_params_def)
  from 1 2 show ?thesis unfolding run by blast
qed

theorem access_list_request_consistent_witness:
  "EvSimulateContract (example_transfer (TOKEN_ADDRESS_BY_CHAIN Base) FALLBACK_ADDRESS)
     \<in> set (fst (run working_provider bare_config)) \<and>
   EvCreateAccessList (example_access_list_request (TOKEN_ADDRESS_BY_CHAIN Base) FALLBACK_ADDRESS)
     \<in> set (fst (run working_provider bare_config)) \<and>
   req_functionName (example_transfer (TOKEN_ADDRESS_BY_CHAIN Base) FALLBACK_ADDRESS) = ''transfer'' \<and>
   al_value (example_access_list_request (TOKEN_ADDRESS_BY_CHAIN Base) FALLBACK_ADDRESS) = 0"
proof -
  have h: "EvSimulateContract (example_transfer (TOKEN_ADDRESS_BY_CHAIN Base) FALLBACK_ADDRESS)
     \<in> set (fst (run working_provider bare_config))"
    "EvCreateAccessList (example_access_list_request (TOKEN_ADDRESS_BY_CHAIN Base) FALLBACK_ADDRESS)
     \<in> set (fst (run working_provider bare_config))"
    by (simp_all add: run_working_bare)
  from access_list_request_consistent [of
      "example_transfer (TOKEN_ADDRESS_BY_CHAIN Base) FALLBACK_ADDRESS" working_provider bare_config
      "example_access_list_request (TOKEN_ADDRESS_BY_CHAIN Base) FALLBACK_ADDRESS"] h
  show ?thesis by blast
qed



text \<open>
  Claim C8, as stated, fails: on one response mapping, where the symbol read and the
  decimals read reject for different reasons, the run settles with the one reason
  or the other according to which of the two concurrent reads settles first; issued
  one after another, the four reads end with the reason of whichever of the two
  comes first in the order.
\<close>

theorem read_order_counterexample:
  "snd (run (failing_reads_provider\<lparr>settle_time := symbol_first\<rparr>) bare_config) =
     Inl symbol_rejected \<and>
   snd (run (failing_reads_provider\<lparr>settle_time := decimals_first\<rparr>) bare_config) =
     Inl decimals_rejected \<and>
   symbol_rejected \<noteq> decimals_rejected \<and>
   reads_in_order failing_reads_provider read_only_script
     [NativeBalance, TokenSymbol, TokenDecimals, TokenBalance] = Inl symbol_rejected \<and>
   reads_in_order failing_reads_provider read_only_script
     [NativeBalance, TokenDecimals, TokenSymbol, TokenBalance] = Inl decimals_rejected"
proof -
  have i: "run w bare_config = main_flow w read_only_script" for w
    by (rule run_init [OF working_init_bare])
  have 1: "snd (main_flow (failing_reads_provider\<lparr>settle_time := symbol_first\<rparr>)
      read_only_script) = Inl symbol_rejected"
    by (simp add: main_flow_def read_stage_def token_reads_def Promise_all3_def rejection_def
        failing_reads_provider_def working_provider_def)
  have 2: "snd (main_flow (failing_reads_provider\<lparr>settle_time := decimals_first\<rparr>)
      read_only_script) = Inl decimals_rejected"
    by (simp add: main_flow_def read_stage_def token_reads_def Promise_all3_def rejection_def
        failing_reads_provider_def working_provider_def)
  have 3: "symbol_rejected \<noteq> decimals_rejected"
    by (simp add: symbol_rejected_def decimals_rejected_def)
  have 4: "reads_in_order failing_reads_provider read_only_script
      [NativeBalance, TokenSymbol, TokenDecimals, TokenBalance] = Inl symbol_rejected"
    "reads_in_order failing_reads_provider read_only_script
      [NativeBalance, TokenDecimals, TokenSymbol, TokenBalance] = Inl decimals_rejected"
    by (simp_all add: failing_reads_provider_def working_provider_def)
  from 1 2 3 4 show ?thesis by (simp add: i)
qed

text \<open>
  Claim C8, as amended. For a fixed response mapping, whether the reads fail does
  not depend on their order: they fail exactly when some read rejects. When the
  reads that reject, if any, all reject for the same reason (so whenever all four
  succeed, or one alone rejects), the final results are the same for the four reads
  issued one after another in any order, for the script's own read stage under any
  settling times of its concurrent reads, and the whole run does not depend on
  those settling times.
\<close>

theorem reads_order_independent:
  assumes "set ord = set all_reads"
  shows "(isl (final_results (reads_in_order w s ord)) \<longleftrightarrow> rejection_reasons w s \<noteq> []) \<and>
         (isl (stage_results (snd (read_stage (w\<lparr>settle_time := t\<rparr>) s))) \<longleftrightarrow>
            rejection_reasons w s \<noteq> []) \<and>
         (length (rejection_reasons w s) \<le> 1 \<longrightarrow>
            final_results (reads_in_order w s ord) = final_results (reads_in_order w s all_reads) \<and>
            final_results (reads_in_order w s ord) =
              stage_results (snd (read_stage (w\<lparr>settle_time := t\<rparr>) s)) \<and>
            main_flow (w\<lparr>settle_time := t\<rparr>) s = main_flow w s)"
proof (cases "rejection_reasons w s = []")
  case True
  then show ?thesis
    using final_results_success [OF assms True] final_results_success [OF refl True]
      stage_results_success [of "w\<lparr>settle_time := t\<rparr>" s] main_flow_settle [of w s t]
    by simp
next
  case False
  from final_results_failure [OF assms False]
  have 1: "\<exists>e q. final_results (reads_in_order w s ord) = Inl e \<and> perform_read w s q = Inl e" .
  from final_results_failure [OF refl False]
  have 2: "\<exists>e q. final_results (reads_in_order w s all_reads) = Inl e \<and>
      perform_read w s q = Inl e" .
  from stage_results_failure [of "w\<lparr>settle_time := t\<rparr>" s] False
  have 3: "\<exists>e q. stage_results (snd (read_stage (w\<lparr>settle_time := t\<rparr>) s)) = Inl e \<and>
      perform_read w s q = Inl e"
    by simp
  have a: "isl (final_results (reads_in_order w s ord))" using 1 by auto
  have b: "isl (stage_results (snd (read_stage (w\<lparr>settle_time := t\<rparr>) s)))" using 3 by auto
  have c: "length (rejection_reasons w s) \<le> 1 \<Longrightarrow>
      final_results (reads_in_order w s ord) = final_results (reads_in_order w s all_reads) \<and>
      final_results (reads_in_order w s ord) =
        stage_results (snd (read_stage (w\<lparr>settle_time := t\<rparr>) s)) \<and>
      main_flow (w\<lparr>settle_time := t\<rparr>) s = main_flow w s"
    using results_agree [OF _ 1 2] results_agree [OF _ 1 3] main_flow_settle [of w s t]
    by simp
  from a b c False show ?thesis by blast
qed

theorem reads_order_independent_witness:
  "set (rev all_reads) = set all_reads \<and>
   length (rejection_reasons working_provider read_only_script) \<le> 1 \<and>
   \<not> isl (final_results (reads_in_order working_provider read_only_script (rev all_reads))) \<and>
   final_results (reads_in_order working_provider read_only_script (rev all_reads)) =
     final_results (reads_in_order working_provider read_only_script all_reads) \<and>
   final_results (reads_in_order working_provider read_only_script (rev all_reads)) =
     stage_results (snd (read_stage (working_provider\<lparr>settle_time := decimals_first\<rparr>)
       read_only_script)) \<and>
   main_flow (working_provider\<lparr>settle_time := decimals_first\<rparr>) read_only_script =
     main_flow working_provider read_only_script"
proof -
  have h: "set (rev all_reads) = set all_reads" by simp
  have l: "length (rejection_reasons working_provider read_only_script) \<le> 1"
    by (simp add: working_reasons)
  have r: "rejection_reasons working_provider read_only_script = []"
    by (rule working_reasons)
  note t = reads_order_independent [OF h, of working_provider read_only_script decimals_first]
  have 1: "\<not> isl (final_results
      (reads_in_order working_provider read_only_script (rev all_reads)))"
    using t r by blast
  have 2: "final_results (reads_in_order working_provider read_only_script (rev all_reads)) =
      final_results (reads_in_order working_provider read_only_script all_reads) \<and>
    final_results (reads_in_order working_provider read_only_script (rev all_reads)) =
      stage_results (snd (read_stage (working_provider\<lparr>settle_time := decimals_first\<rparr>)
        read_only_script)) \<and>
    main_flow (working_provider\<lparr>settle_time := decimals_first\<rparr>) read_only_script =
      main_flow working_provider read_only_script"
    using t l by blast
  from h l 1 2 show ?thesis by blast
qed

end
